theory Spec2Isabelle
  imports Complex_Main
begin

section \<open>JavaScript values handed to the request contracts\<close>

text \<open>
  The request contracts of \<^verbatim>\<open>schemas.ts\<close> are zod schemas; their \<^verbatim>\<open>parse\<close> takes any
  JavaScript value. zod does not count NaN as a number: it is a value of its own here,
  \<open>JNaN\<close>, and a number is a finite value or one of the two infinities. An object is
  the list of its own properties (the first binding of a key is the one a property
  read sees). \<open>JOther\<close> stands for the values no schema of this file looks
  into: functions, symbols, bigints, dates, maps, sets and promises.
\<close>

datatype number = Finite rat | PosInfinity | NegInfinity

datatype jsval =
    JUndefined
  | JNull
  | JBoolean bool
  | JNaN
  | JNumber number
  | JString string
  | JArray "jsval list"
  | JObject "(string \<times> jsval) list"
  | JOther

text \<open>
  zod 3, \<^verbatim>\<open>getParsedType\<close>: the type tag every schema tests first. NaN has a tag of its
  own (\<^verbatim>\<open>isNaN(data) ? ZodParsedType.nan : ZodParsedType.number\<close>), arrays and null are
  told apart from objects.
\<close>

datatype ZodParsedType =
    zstring | znan | znumber | zboolean | zundefined | znull | zarray | zobject | zunknown

fun getParsedType :: "jsval \<Rightarrow> ZodParsedType" where
  "getParsedType JUndefined = zundefined"
| "getParsedType (JString s) = zstring"
| "getParsedType JNaN = znan"
| "getParsedType (JNumber n) = znumber"
| "getParsedType (JBoolean b) = zboolean"
| "getParsedType (JArray xs) = zarray"
| "getParsedType JNull = znull"
| "getParsedType (JObject fs) = zobject"
| "getParsedType JOther = zunknown"

text \<open>Property read \<^verbatim>\<open>data[key]\<close> and the test \<^verbatim>\<open>key in data\<close> on own properties.\<close>

definition getProp :: "(string \<times> jsval) list \<Rightarrow> string \<Rightarrow> jsval" where
  "getProp fs k = (case map_of fs k of None \<Rightarrow> JUndefined | Some v \<Rightarrow> v)"

definition hasProp :: "(string \<times> jsval) list \<Rightarrow> string \<Rightarrow> bool" where
  "hasProp fs k = (k \<in> set (map fst fs))"

section \<open>The schema combinators used by \<^verbatim>\<open>schemas.ts\<close>\<close>

text \<open>
  \<^verbatim>\<open>z.string()\<close>, \<^verbatim>\<open>z.number()\<close>, \<^verbatim>\<open>z.any()\<close>, \<^verbatim>\<open>.optional()\<close>, \<^verbatim>\<open>z.array(t)\<close>,
  \<^verbatim>\<open>z.record(t)\<close> (one argument: string keys, the zod 3 form) and \<^verbatim>\<open>z.object(shape)\<close>
  with the default policy for unknown keys, \<^verbatim>\<open>strip\<close>.
\<close>

datatype ZodType =
    ZodString
  | ZodNumber
  | ZodAny
  | ZodOptional ZodType
  | ZodArray ZodType
  | ZodRecord ZodType
  | ZodObject "(string \<times> ZodType) list"

datatype pathseg = Key string | Index nat

datatype ZodIssue =
  invalid_type (path: "pathseg list") (expected: ZodParsedType) (received: ZodParsedType)

type_synonym 'a ParseReturn = "ZodIssue list + 'a"

text \<open>
  \<^verbatim>\<open>ParseStatus.mergeObjectSync\<close> and \<^verbatim>\<open>mergeArray\<close>: every member has been parsed, the
  issues of all of them are collected, and the result is invalid as soon as one member
  is.
\<close>

fun merge :: "'a ParseReturn \<Rightarrow> 'a list ParseReturn \<Rightarrow> 'a list ParseReturn" where
  "merge (Inr v) (Inr vs) = Inr (v # vs)"
| "merge (Inr v) (Inl is) = Inl is"
| "merge (Inl i) (Inr vs) = Inl i"
| "merge (Inl i) (Inl is) = Inl (i @ is)"

text \<open>
  A parsed member of an object: \<^verbatim>\<open>None\<close> is a key left out of the result, which
  \<^verbatim>\<open>mergeObjectSync\<close> does for the key \<^verbatim>\<open>__proto__\<close> and for a value \<^verbatim>\<open>undefined\<close> whose
  key the input does not have (\<^verbatim>\<open>alwaysSet\<close> false).
\<close>

definition setPair :: "string \<Rightarrow> bool \<Rightarrow> jsval \<Rightarrow> (string \<times> jsval) option" where
  "setPair k alwaysSet v =
     (if k \<noteq> ''__proto__'' \<and> (v \<noteq> JUndefined \<or> alwaysSet) then Some (k, v) else None)"

fun finalPairs :: "(string \<times> jsval) option list \<Rightarrow> (string \<times> jsval) list" where
  "finalPairs [] = []"
| "finalPairs (None # ps) = finalPairs ps"
| "finalPairs (Some kv # ps) = kv # finalPairs ps"

definition finalObject :: "(string \<times> jsval) option list \<Rightarrow> jsval" where
  "finalObject ps = JObject (finalPairs ps)"

fun mergeAll :: "'a ParseReturn list \<Rightarrow> 'a list ParseReturn" where
  "mergeAll [] = Inr []"
| "mergeAll (r # rs) = merge r (mergeAll rs)"

text \<open>
  The \<^verbatim>\<open>_parse\<close> methods of \<^verbatim>\<open>ZodString\<close>, \<^verbatim>\<open>ZodNumber\<close>, \<^verbatim>\<open>ZodAny\<close>, \<^verbatim>\<open>ZodOptional\<close>,
  \<^verbatim>\<open>ZodArray\<close>, \<^verbatim>\<open>ZodRecord\<close> and \<^verbatim>\<open>ZodObject\<close>. An object schema reads each key of its
  shape from the input and never looks at the other keys of the input.
\<close>

fun parse :: "ZodType \<Rightarrow> pathseg list \<Rightarrow> jsval \<Rightarrow> jsval ParseReturn" where
  "parse ZodString p v =
     (if getParsedType v \<noteq> zstring then Inl [invalid_type p zstring (getParsedType v)]
      else Inr v)"
| "parse ZodNumber p v =
     (if getParsedType v \<noteq> znumber then Inl [invalid_type p znumber (getParsedType v)]
      else Inr v)"
| "parse ZodAny p v = Inr v"
| "parse (ZodOptional t) p v =
     (if getParsedType v = zundefined then Inr JUndefined else parse t p v)"
| "parse (ZodArray t) p v =
     (case v of
        JArray xs \<Rightarrow>
          map_sum id JArray
            (mergeAll (map (\<lambda>(i, x). parse t (p @ [Index i]) x) (enumerate 0 xs)))
      | _ \<Rightarrow> Inl [invalid_type p zarray (getParsedType v)])"
| "parse (ZodRecord t) p v =
     (case v of
        JObject fs \<Rightarrow>
          map_sum id finalObject
            (mergeAll (map (\<lambda>(k, x). map_sum id (setPair k True) (parse t (p @ [Key k]) x)) fs))
      | _ \<Rightarrow> Inl [invalid_type p zobject (getParsedType v)])"
| "parse (ZodObject shape) p v =
     (case v of
        JObject fs \<Rightarrow>
          map_sum id finalObject
            (mergeAll (map (\<lambda>(k, t). map_sum id (setPair k (hasProp fs k))
                                        (parse t (p @ [Key k]) (getProp fs k))) shape))
      | _ \<Rightarrow> Inl [invalid_type p zobject (getParsedType v)])"

text \<open>\<^verbatim>\<open>schema.safeParse(data)\<close>: the parse at the empty path.\<close>

definition safeParse :: "ZodType \<Rightarrow> jsval \<Rightarrow> jsval ParseReturn" where
  "safeParse t v = parse t [] v"

definition success :: "'a ParseReturn \<Rightarrow> bool" where
  "success r = (case r of Inl _ \<Rightarrow> False | Inr _ \<Rightarrow> True)"

section \<open>The request contracts of \<^verbatim>\<open>schemas.ts\<close>\<close>

subsection \<open>Config tools\<close>

definition GetConfigArgsSchema :: ZodType where
  "GetConfigArgsSchema = ZodObject []"

definition GetConfigValueArgsSchema :: ZodType where
  "GetConfigValueArgsSchema = ZodObject [(''key'', ZodString)]"

definition SetConfigValueArgsSchema :: ZodType where
  "SetConfigValueArgsSchema = ZodObject [(''key'', ZodString), (''value'', ZodAny)]"

definition UpdateConfigArgsSchema :: ZodType where
  "UpdateConfigArgsSchema = ZodObject [(''config'', ZodRecord ZodAny)]"

subsection \<open>Terminal tools\<close>

definition ExecuteCommandArgsSchema :: ZodType where
  "ExecuteCommandArgsSchema =
     ZodObject [(''command'', ZodString),
                (''timeout_ms'', ZodOptional ZodNumber),
                (''shell'', ZodOptional ZodString)]"

definition ReadOutputArgsSchema :: ZodType where
  "ReadOutputArgsSchema = ZodObject [(''pid'', ZodNumber)]"

definition ForceTerminateArgsSchema :: ZodType where
  "ForceTerminateArgsSchema = ZodObject [(''pid'', ZodNumber)]"

definition ListSessionsArgsSchema :: ZodType where
  "ListSessionsArgsSchema = ZodObject []"

definition KillProcessArgsSchema :: ZodType where
  "KillProcessArgsSchema = ZodObject [(''pid'', ZodNumber)]"

definition BlockCommandArgsSchema :: ZodType where
  "BlockCommandArgsSchema = ZodObject [(''command'', ZodString)]"

definition UnblockCommandArgsSchema :: ZodType where
  "UnblockCommandArgsSchema = ZodObject [(''command'', ZodString)]"

subsection \<open>Filesystem tools\<close>

definition ReadFileArgsSchema :: ZodType where
  "ReadFileArgsSchema = ZodObject [(''path'', ZodString)]"

definition ReadMultipleFilesArgsSchema :: ZodType where
  "ReadMultipleFilesArgsSchema = ZodObject [(''paths'', ZodArray ZodString)]"

definition WriteFileArgsSchema :: ZodType where
  "WriteFileArgsSchema = ZodObject [(''path'', ZodString), (''content'', ZodString)]"

definition CreateDirectoryArgsSchema :: ZodType where
  "CreateDirectoryArgsSchema = ZodObject [(''path'', ZodString)]"

definition ListDirectoryArgsSchema :: ZodType where
  "ListDirectoryArgsSchema = ZodObject [(''path'', ZodString)]"

definition MoveFileArgsSchema :: ZodType where
  "MoveFileArgsSchema = ZodObject [(''source'', ZodString), (''destination'', ZodString)]"

definition SearchFilesArgsSchema :: ZodType where
  "SearchFilesArgsSchema = ZodObject [(''path'', ZodString), (''pattern'', ZodString)]"

definition GetFileInfoArgsSchema :: ZodType where
  "GetFileInfoArgsSchema = ZodObject [(''path'', ZodString)]"

subsection \<open>Edit tools\<close>

definition EditBlockArgsSchema :: ZodType where
  "EditBlockArgsSchema = ZodObject [(''blockContent'', ZodString)]"

text \<open>Every contract the module exports, and the keys a contract declares.\<close>

definition schemas :: "ZodType list" where
  "schemas =
     [GetConfigArgsSchema, GetConfigValueArgsSchema, SetConfigValueArgsSchema,
      UpdateConfigArgsSchema, ExecuteCommandArgsSchema, ReadOutputArgsSchema,
      ForceTerminateArgsSchema, ListSessionsArgsSchema, KillProcessArgsSchema,
      BlockCommandArgsSchema, UnblockCommandArgsSchema, ReadFileArgsSchema,
      ReadMultipleFilesArgsSchema, WriteFileArgsSchema, CreateDirectoryArgsSchema,
      ListDirectoryArgsSchema, MoveFileArgsSchema, SearchFilesArgsSchema,
      GetFileInfoArgsSchema, EditBlockArgsSchema]"

fun declared :: "ZodType \<Rightarrow> string list" where
  "declared (ZodObject shape) = map fst shape"
| "declared _ = []"

text \<open>A field that is a string, and a field that is a number.\<close>

definition isString :: "jsval \<Rightarrow> bool" where
  "isString v = (case v of JString _ \<Rightarrow> True | _ \<Rightarrow> False)"

definition isNumber :: "jsval \<Rightarrow> bool" where
  "isNumber v = (case v of JNumber _ \<Rightarrow> True | _ \<Rightarrow> False)"

section \<open>The session registry\<close>

text \<open>
  \<^verbatim>\<open>schemas.ts\<close> holds the request contracts only. The session registry and the output
  reader that the specification describes behind them are given here as the
  specification words them (its sections 3, 4.2, 4.4 and 7).
\<close>

text \<open>Modelled from the spec: the values of a session's \<^verbatim>\<open>status\<close> (section 3); the
  implementation of the session manager is not among the sources.\<close>

datatype Status = running | completed | timedOut | terminated | failed

text \<open>Modelled from the spec: the error taxonomy of section 7.\<close>

datatype Error =
    InvalidArgument | CommandBlocked | NotFound | InvalidTransition | SpawnFailure
  | PermissionDenied

text \<open>Modelled from the spec: the session identifier of section 3, an opaque handle
  that is never reused; here the value of the generation counter at creation.\<close>

type_synonym SessionId = nat

text \<open>Modelled from the spec: the session record of section 3. Times are in
  milliseconds; the output buffer holds the captured characters in arrival order.\<close>

record Session =
  command :: string
  shell :: string
  createdAt :: nat
  status :: Status
  exitCode :: "int option"
  outputBuffer :: string
  readCursor :: nat
  timeoutDeadline :: "nat option"

text \<open>Modelled from the spec: the registry of section 4.2, the map from identifiers to
  session records, with the generation counter that allocates identifiers.\<close>

record Registry =
  sessions :: "SessionId \<rightharpoonup> Session"
  generation :: nat

text \<open>Modelled from the spec: the registry at manager startup (section 9), with no
  session.\<close>

definition emptyRegistry :: Registry where
  "emptyRegistry = \<lparr>sessions = Map.empty, generation = 0\<rparr>"

text \<open>Modelled from the spec: the state machine of section 4.2. The four edges leave
  \<^verbatim>\<open>running\<close>; no edge leaves \<^verbatim>\<open>completed\<close>, \<^verbatim>\<open>failed\<close>, \<^verbatim>\<open>timedOut\<close> or \<^verbatim>\<open>terminated\<close>.\<close>

fun reachable :: "Status \<Rightarrow> Status \<Rightarrow> bool" where
  "reachable running completed = True"
| "reachable running failed = True"
| "reachable running timedOut = True"
| "reachable running terminated = True"
| "reachable _ _ = False"

text \<open>Modelled from the spec: the terminal states of the glossary.\<close>

definition terminal :: "Status \<Rightarrow> bool" where
  "terminal st = (st = completed \<or> st = failed \<or> st = timedOut \<or> st = terminated)"

text \<open>Modelled from the spec: \<^verbatim>\<open>create(command, shell, timeout)\<close> of section 4.2, at the
  time \<open>now\<close>: it fails with \<^verbatim>\<open>InvalidArgument\<close> on an empty command, and otherwise
  allocates a new identifier and inserts a record in the \<^verbatim>\<open>running\<close> state, with no output
  captured and none delivered.\<close>

definition create ::
  "Registry \<Rightarrow> string \<Rightarrow> string \<Rightarrow> nat option \<Rightarrow> nat \<Rightarrow> Error + SessionId \<times> Registry" where
  "create r cmd sh timeout now =
     (if cmd = [] then Inl InvalidArgument
      else
        let sid = generation r;
            s = \<lparr>command = cmd, shell = sh, createdAt = now, status = running,
                 exitCode = None, outputBuffer = [], readCursor = 0,
                 timeoutDeadline = map_option (\<lambda>t. now + t) timeout\<rparr>
        in Inr (sid, r\<lparr>sessions := (sessions r)(sid \<mapsto> s), generation := Suc (generation r)\<rparr>))"

text \<open>Modelled from the spec: \<^verbatim>\<open>transition(id, newStatus, exitCode?)\<close> of section 4.2: it
  fails with \<^verbatim>\<open>InvalidTransition\<close> when the new status is not reachable from the current
  one, and with \<^verbatim>\<open>NotFound\<close> on an unknown identifier (section 7).\<close>

definition transition ::
  "Registry \<Rightarrow> SessionId \<Rightarrow> Status \<Rightarrow> int option \<Rightarrow> Error + Registry" where
  "transition r sid newStatus code =
     (case sessions r sid of
        None \<Rightarrow> Inl NotFound
      | Some s \<Rightarrow>
          if reachable (status s) newStatus
          then Inr (r\<lparr>sessions := (sessions r)(sid \<mapsto> s\<lparr>status := newStatus, exitCode := code\<rparr>)\<rparr>)
          else Inl InvalidTransition)"

text \<open>Modelled from the spec: \<^verbatim>\<open>appendOutput(id, chunk)\<close> of section 4.2: it appends to
  the output buffer of a running session, and is a no-op with a logged warning on a
  terminal one; an unknown identifier is \<^verbatim>\<open>NotFound\<close> (section 7). The boolean of the
  result tells whether the chunk was appended.\<close>

definition appendOutput ::
  "Registry \<Rightarrow> SessionId \<Rightarrow> string \<Rightarrow> Error + bool \<times> Registry" where
  "appendOutput r sid chunk =
     (case sessions r sid of
        None \<Rightarrow> Inl NotFound
      | Some s \<Rightarrow>
          if status s = running
          then Inr (True,
                 r\<lparr>sessions := (sessions r)(sid \<mapsto> s\<lparr>outputBuffer := outputBuffer s @ chunk\<rparr>)\<rparr>)
          else Inr (False, r))"

text \<open>Modelled from the spec: \<^verbatim>\<open>read(id)\<close> of section 4.4: it returns everything in the
  output buffer from the read cursor onward together with the current status, and
  advances the cursor to the end of what it returned; an unknown session is
  \<^verbatim>\<open>NotFound\<close>.\<close>

definition read :: "Registry \<Rightarrow> SessionId \<Rightarrow> Error + (string \<times> Status) \<times> Registry" where
  "read r sid =
     (case sessions r sid of
        None \<Rightarrow> Inl NotFound
      | Some s \<Rightarrow>
          let chunk = drop (readCursor s) (outputBuffer s)
          in Inr ((chunk, status s),
               r\<lparr>sessions := (sessions r)(sid \<mapsto> s\<lparr>readCursor := readCursor s + length chunk\<rparr>)\<rparr>))"

text \<open>Modelled from the spec: the calls that reach the registry, one at a time per
  session (section 5), from callers, from the capture task of a process and from its
  timer, and what each call answers.\<close>

datatype Call =
    Create string string "nat option" nat
  | Transition SessionId Status "int option"
  | AppendOutput SessionId string
  | Read SessionId

datatype Reply =
    Created SessionId
  | Moved
  | Appended bool
  | Chunk string Status
  | Failure Error

text \<open>Modelled from the spec: one call on the registry. A call that fails leaves the
  registry as it was (section 7: the error is returned to the caller).\<close>

fun step :: "Registry \<Rightarrow> Call \<Rightarrow> Reply \<times> Registry" where
  "step r (Create cmd sh timeout now) =
     (case create r cmd sh timeout now of
        Inl e \<Rightarrow> (Failure e, r) | Inr (sid, r') \<Rightarrow> (Created sid, r'))"
| "step r (Transition sid st code) =
     (case transition r sid st code of
        Inl e \<Rightarrow> (Failure e, r) | Inr r' \<Rightarrow> (Moved, r'))"
| "step r (AppendOutput sid chunk) =
     (case appendOutput r sid chunk of
        Inl e \<Rightarrow> (Failure e, r) | Inr (b, r') \<Rightarrow> (Appended b, r'))"
| "step r (Read sid) =
     (case read r sid of
        Inl e \<Rightarrow> (Failure e, r) | Inr ((chunk, st), r') \<Rightarrow> (Chunk chunk st, r'))"

text \<open>Modelled from the spec: any interleaving of calls, with the reply to each.\<close>

fun run :: "Registry \<Rightarrow> Call list \<Rightarrow> (Call \<times> Reply) list \<times> Registry" where
  "run r [] = ([], r)"
| "run r (c # cs) =
     (case step r c of (a, r') \<Rightarrow> (case run r' cs of (tr, r'') \<Rightarrow> ((c, a) # tr, r'')))"

text \<open>Modelled from the spec: what the reads of a session have returned so far, and what
  the process of a session has written to its output buffer so far (section 8).\<close>

fun chunkRead :: "SessionId \<Rightarrow> Call \<times> Reply \<Rightarrow> string" where
  "chunkRead sid (Read j, Chunk chunk st) = (if j = sid then chunk else [])"
| "chunkRead sid _ = []"

fun chunkWritten :: "SessionId \<Rightarrow> Call \<times> Reply \<Rightarrow> string" where
  "chunkWritten sid (AppendOutput j chunk, Appended True) = (if j = sid then chunk else [])"
| "chunkWritten sid _ = []"

definition delivered :: "SessionId \<Rightarrow> (Call \<times> Reply) list \<Rightarrow> string" where
  "delivered sid tr = concat (map (chunkRead sid) tr)"

definition written :: "SessionId \<Rightarrow> (Call \<times> Reply) list \<Rightarrow> string" where
  "written sid tr = concat (map (chunkWritten sid) tr)"

text \<open>Modelled from the spec: a session record agrees with what was written to it and
  what was read from it (section 8): the buffer is what was written, what was delivered
  is the buffer up to the read cursor, and the cursor lies within the buffer. A session
  that does not exist has neither output nor reads.\<close>

definition inSync :: "Session option \<Rightarrow> string \<Rightarrow> string \<Rightarrow> bool" where
  "inSync so w d =
     (case so of
        None \<Rightarrow> w = [] \<and> d = []
      | Some s \<Rightarrow> outputBuffer s = w \<and> d = take (readCursor s) w \<and> readCursor s \<le> length w)"

section \<open>Success of a parse\<close>

lemma success_simps [simp]:
  "success (Inr x)" "\<not> success (Inl e)"
  by (simp_all add: success_def)

lemma success_map_sum [simp]: "success (map_sum f g r) = success r"
  by (cases r) simp_all

lemma success_merge [simp]: "success (merge r rs) = (success r \<and> success rs)"
  by (cases r; cases rs) simp_all

lemma success_mergeAll: "success (mergeAll rs) = (\<forall>r \<in> set rs. success r)"
  by (induction rs) simp_all

declare parse.simps [simp del]

lemma success_string [simp]: "success (parse ZodString p v) = isString v"
  by (cases v) (simp_all add: isString_def parse.simps)

lemma success_number [simp]: "success (parse ZodNumber p v) = isNumber v"
  by (cases v) (simp_all add: isNumber_def parse.simps)

lemma success_any [simp]: "success (parse ZodAny p v)"
  by (simp add: parse.simps)

lemma success_optional [simp]:
  "success (parse (ZodOptional t) p v) = (v = JUndefined \<or> success (parse t p v))"
  by (cases v) (simp_all add: parse.simps)

lemma success_object:
  "success (parse (ZodObject shape) p v) =
     (\<exists>fs. v = JObject fs \<and>
        (\<forall>(k, t) \<in> set shape. success (parse t (p @ [Key k]) (getProp fs k))))"
  by (cases v) (auto simp: success_mergeAll parse.simps)

lemma ball_enumerate_snd:
  "(\<forall>ix \<in> set (enumerate n xs). P (snd ix)) = (\<forall>x \<in> set xs. P x)"
proof -
  have "set xs = snd ` set (enumerate n xs)"
    by (metis map_snd_enumerate set_map)
  then show ?thesis by simp
qed

lemma success_array:
  "success (parse (ZodArray t) p v) =
     (\<exists>xs. v = JArray xs \<and>
        (\<forall>ix \<in> set (enumerate 0 xs). success (parse t (p @ [Index (fst ix)]) (snd ix))))"
  by (cases v) (simp_all add: success_mergeAll case_prod_unfold parse.simps)

lemma success_array_string:
  "success (parse (ZodArray ZodString) p v) = (\<exists>xs. v = JArray xs \<and> (\<forall>x \<in> set xs. isString x))"
  unfolding success_array success_string ball_enumerate_snd ..

lemma success_record_any: "success (parse (ZodRecord ZodAny) p v) = (\<exists>fs. v = JObject fs)"
  by (cases v) (auto simp: success_mergeAll parse.simps)

lemma success_schema:
  "success (safeParse (ZodObject shape) v) =
     (\<exists>fs. v = JObject fs \<and>
        (\<forall>(k, t) \<in> set shape. success (parse t [Key k] (getProp fs k))))"
  unfolding safeParse_def success_object by simp

lemma hasProp_map_of: "hasProp fs k = (map_of fs k \<noteq> None)"
  by (simp add: hasProp_def map_of_eq_None_iff)

lemma parse_object_agree:
  assumes "\<forall>k \<in> set (map fst shape). map_of fs' k = map_of fs k"
  shows "parse (ZodObject shape) p (JObject fs') = parse (ZodObject shape) p (JObject fs)"
proof -
  have eq: "map (\<lambda>(k, t). map_sum id (setPair k (hasProp fs' k))
                          (parse t (p @ [Key k]) (getProp fs' k))) shape =
        map (\<lambda>(k, t). map_sum id (setPair k (hasProp fs k))
                          (parse t (p @ [Key k]) (getProp fs k))) shape"
    using assms by (intro map_cong refl) (auto simp: hasProp_map_of getProp_def)
  show ?thesis by (simp only: parse.simps jsval.case eq)
qed

lemma map_of_append_extra:
  assumes "k \<notin> set (map fst extra)"
  shows "map_of (fs @ extra) k = map_of fs k" and "map_of (extra @ fs) k = map_of fs k"
proof -
  from assms have "map_of extra k = None"
    by (simp add: map_of_eq_None_iff)
  then show "map_of (fs @ extra) k = map_of fs k" and "map_of (extra @ fs) k = map_of fs k"
    by (simp_all add: map_add_def split: option.split)
qed

lemma merge_Inr: "merge r rs = Inr vs \<longleftrightarrow> (\<exists>v vs'. r = Inr v \<and> rs = Inr vs' \<and> vs = v # vs')"
  by (cases r; cases rs) auto

lemma mergeAll_keys:
  assumes g: "\<And>kt q. g kt = Inr q \<Longrightarrow> q = None \<or> (\<exists>x. q = Some (fst kt, x))"
  shows "mergeAll (map g shape) = Inr ps \<Longrightarrow> fst ` set (finalPairs ps) \<subseteq> fst ` set shape"
proof (induction shape arbitrary: ps)
  case Nil
  then show ?case by simp
next
  case (Cons kt shape)
  from Cons.prems have "merge (g kt) (mergeAll (map g shape)) = Inr ps" by simp
  then obtain q qs where q: "g kt = Inr q" and qs: "mergeAll (map g shape) = Inr qs"
    and ps: "ps = q # qs"
    unfolding merge_Inr by blast
  from g [OF q] Cons.IH [OF qs] ps show ?case
    by (auto simp: image_subset_iff)
qed

lemma setPair_key: "map_sum id (setPair k b) r = Inr q \<Longrightarrow> q = None \<or> (\<exists>x. q = Some (k, x))"
  by (cases r) (auto simp: setPair_def split: if_splits)

lemma parse_object_keys:
  assumes "parse (ZodObject shape) p v = Inr out"
  shows "\<exists>ofs. out = JObject ofs \<and> set (map fst ofs) \<subseteq> set (map fst shape)"
proof (cases v)
  case (JObject fs)
  let ?g = "\<lambda>(k, t). map_sum id (setPair k (hasProp fs k)) (parse t (p @ [Key k]) (getProp fs k))"
  from assms JObject have "map_sum id finalObject (mergeAll (map ?g shape)) = Inr out"
    by (simp only: parse.simps jsval.case)
  then obtain ps where ps: "mergeAll (map ?g shape) = Inr ps" and out: "out = finalObject ps"
    by (cases "mergeAll (map ?g shape)") auto
  have "fst ` set (finalPairs ps) \<subseteq> fst ` set shape"
  proof (rule mergeAll_keys [OF _ ps])
    fix kt q assume "?g kt = Inr q"
    then show "q = None \<or> (\<exists>x. q = Some (fst kt, x))"
      by (cases kt) (auto dest: setPair_key)
  qed
  with out show ?thesis by (simp add: finalObject_def)
qed (use assms in \<open>simp_all add: parse.simps\<close>)

lemma schemas_are_objects: "S \<in> set schemas \<Longrightarrow> \<exists>shape. S = ZodObject shape"
  by (auto simp: schemas_def GetConfigArgsSchema_def GetConfigValueArgsSchema_def
      SetConfigValueArgsSchema_def UpdateConfigArgsSchema_def ExecuteCommandArgsSchema_def
      ReadOutputArgsSchema_def ForceTerminateArgsSchema_def ListSessionsArgsSchema_def
      KillProcessArgsSchema_def BlockCommandArgsSchema_def UnblockCommandArgsSchema_def
      ReadFileArgsSchema_def ReadMultipleFilesArgsSchema_def WriteFileArgsSchema_def
      CreateDirectoryArgsSchema_def ListDirectoryArgsSchema_def MoveFileArgsSchema_def
      SearchFilesArgsSchema_def GetFileInfoArgsSchema_def EditBlockArgsSchema_def)

section \<open>The terminal contracts\<close>

text \<open>
  C2. The execute command contract validates an input exactly when the input is an
  object whose \<^verbatim>\<open>command\<close> is a string, whose \<^verbatim>\<open>timeout_ms\<close> is absent (reads as
  \<^verbatim>\<open>undefined\<close>) or a number, and whose \<^verbatim>\<open>shell\<close> is absent or a string. No other field
  is looked at. A number is what zod calls one: any numeric value but NaN.
\<close>

theorem execute_command_contract:
  "success (safeParse ExecuteCommandArgsSchema v) =
     (\<exists>fs. v = JObject fs \<and>
        isString (getProp fs ''command'') \<and>
        (getProp fs ''timeout_ms'' = JUndefined \<or> isNumber (getProp fs ''timeout_ms'')) \<and>
        (getProp fs ''shell'' = JUndefined \<or> isString (getProp fs ''shell'')))"
  unfolding ExecuteCommandArgsSchema_def success_schema by simp

theorem execute_command_contract_witness:
  "success (safeParse ExecuteCommandArgsSchema
      (JObject [(''command'', JString ''ls''), (''timeout_ms'', JNumber (Finite 5000))])) \<and>
   \<not> success (safeParse ExecuteCommandArgsSchema
      (JObject [(''command'', JString ''ls''), (''timeout_ms'', JString ''5000'')])) \<and>
   \<not> success (safeParse ExecuteCommandArgsSchema (JObject [(''shell'', JString ''sh'')]))"
  unfolding execute_command_contract by (simp add: getProp_def isString_def isNumber_def)

text \<open>
  C3. Each of the read output, force terminate and kill process contracts validates an
  input exactly when the input is an object whose \<^verbatim>\<open>pid\<close> is a number; nothing else is
  required and nothing is optional.
\<close>

theorem pid_contracts:
  "S \<in> {ReadOutputArgsSchema, ForceTerminateArgsSchema, KillProcessArgsSchema} \<Longrightarrow>
   success (safeParse S v) = (\<exists>fs. v = JObject fs \<and> isNumber (getProp fs ''pid''))"
  unfolding ReadOutputArgsSchema_def ForceTerminateArgsSchema_def KillProcessArgsSchema_def
  by (auto simp: success_schema)

theorem pid_contracts_witness:
  "ForceTerminateArgsSchema \<in> {ReadOutputArgsSchema, ForceTerminateArgsSchema, KillProcessArgsSchema} \<and>
   success (safeParse ForceTerminateArgsSchema (JObject [(''pid'', JNumber (Finite 4242))])) \<and>
   \<not> success (safeParse ForceTerminateArgsSchema (JObject [(''pid'', JString ''4242'')])) \<and>
   \<not> success (safeParse ForceTerminateArgsSchema (JObject []))"
proof -
  have m: "ForceTerminateArgsSchema \<in>
      {ReadOutputArgsSchema, ForceTerminateArgsSchema, KillProcessArgsSchema}"
    by simp
  show ?thesis
    unfolding pid_contracts [OF m] using m
    by (simp add: getProp_def isNumber_def)
qed

text \<open>
  C4. Each of the block command and unblock command contracts validates an input
  exactly when the input is an object whose \<^verbatim>\<open>command\<close> is a string; nothing else is
  required and nothing is optional.
\<close>

theorem block_command_contracts:
  "S \<in> {BlockCommandArgsSchema, UnblockCommandArgsSchema} \<Longrightarrow>
   success (safeParse S v) = (\<exists>fs. v = JObject fs \<and> isString (getProp fs ''command''))"
  unfolding BlockCommandArgsSchema_def UnblockCommandArgsSchema_def
  by (auto simp: success_schema)

theorem block_command_contracts_witness:
  "UnblockCommandArgsSchema \<in> {BlockCommandArgsSchema, UnblockCommandArgsSchema} \<and>
   success (safeParse UnblockCommandArgsSchema (JObject [(''command'', JString ''rm'')])) \<and>
   \<not> success (safeParse UnblockCommandArgsSchema (JObject [(''command'', JNull)])) \<and>
   \<not> success (safeParse UnblockCommandArgsSchema (JObject []))"
proof -
  have m: "UnblockCommandArgsSchema \<in> {BlockCommandArgsSchema, UnblockCommandArgsSchema}"
    by simp
  show ?thesis
    unfolding block_command_contracts [OF m] using m
    by (simp add: getProp_def isString_def)
qed

text \<open>
  C9. The numeric fields are tested for being numbers and for nothing else: with any
  finite number, negative, zero or fractional, as \<^verbatim>\<open>timeout_ms\<close> an execute command
  request with a string command and no ill-typed shell validates, and with any finite
  number as \<^verbatim>\<open>pid\<close> a read output, force terminate or kill process request validates.
\<close>

theorem numeric_fields_unconstrained:
  "(isString (getProp fs ''command'') \<and> getProp fs ''timeout_ms'' = JNumber (Finite n) \<and>
      (getProp fs ''shell'' = JUndefined \<or> isString (getProp fs ''shell''))
      \<longrightarrow> success (safeParse ExecuteCommandArgsSchema (JObject fs))) \<and>
   (getProp fs ''pid'' = JNumber (Finite n)
      \<longrightarrow> success (safeParse ReadOutputArgsSchema (JObject fs)) \<and>
          success (safeParse ForceTerminateArgsSchema (JObject fs)) \<and>
          success (safeParse KillProcessArgsSchema (JObject fs)))"
  unfolding ExecuteCommandArgsSchema_def ReadOutputArgsSchema_def ForceTerminateArgsSchema_def
    KillProcessArgsSchema_def success_schema
  by (simp add: isNumber_def)

theorem numeric_fields_unconstrained_witness:
  "success (safeParse ExecuteCommandArgsSchema
      (JObject [(''command'', JString ''ls''), (''timeout_ms'', JNumber (Finite (- 3 / 2)))])) \<and>
   success (safeParse ExecuteCommandArgsSchema
      (JObject [(''command'', JString ''ls''), (''timeout_ms'', JNumber (Finite 0))])) \<and>
   success (safeParse ReadOutputArgsSchema (JObject [(''pid'', JNumber (Finite (- 7 / 4)))])) \<and>
   success (safeParse ForceTerminateArgsSchema (JObject [(''pid'', JNumber (Finite (- 7 / 4)))])) \<and>
   success (safeParse KillProcessArgsSchema (JObject [(''pid'', JNumber (Finite (- 7 / 4)))]))"
  using
    numeric_fields_unconstrained
      [of "[(''command'', JString ''ls''), (''timeout_ms'', JNumber (Finite (- 3 / 2)))]" "- 3 / 2"]
    numeric_fields_unconstrained
      [of "[(''command'', JString ''ls''), (''timeout_ms'', JNumber (Finite 0))]" 0]
    numeric_fields_unconstrained [of "[(''pid'', JNumber (Finite (- 7 / 4)))]" "- 7 / 4"]
  by (simp add: getProp_def isString_def)

text \<open>
  C1 as the claim states it fails: the request \<^verbatim>\<open>{command: ""}\<close> passes the request
  contract, which returns it unchanged.
\<close>

theorem empty_command_counterexample:
  "safeParse ExecuteCommandArgsSchema (JObject [(''command'', JString [])]) =
     Inr (JObject [(''command'', JString [])])"
  by (simp add: safeParse_def ExecuteCommandArgsSchema_def parse.simps getProp_def hasProp_def
      setPair_def finalObject_def)

text \<open>
  C1, amended. The execute command contract rejects a request whose \<^verbatim>\<open>command\<close> is missing
  or not a string, and it never looks at the content of a string command: a request that
  carries only a command validates, and comes back unchanged, for every string, the
  empty one included.
\<close>

theorem execute_command_any_string:
  "(\<not> isString (getProp fs ''command'')
      \<longrightarrow> \<not> success (safeParse ExecuteCommandArgsSchema (JObject fs))) \<and>
   safeParse ExecuteCommandArgsSchema (JObject [(''command'', JString c)]) =
     Inr (JObject [(''command'', JString c)])"
proof
  show "\<not> isString (getProp fs ''command'')
      \<longrightarrow> \<not> success (safeParse ExecuteCommandArgsSchema (JObject fs))"
    unfolding ExecuteCommandArgsSchema_def success_schema by simp
  show "safeParse ExecuteCommandArgsSchema (JObject [(''command'', JString c)]) =
     Inr (JObject [(''command'', JString c)])"
    by (simp add: safeParse_def ExecuteCommandArgsSchema_def parse.simps getProp_def hasProp_def
      setPair_def finalObject_def)
qed

theorem execute_command_any_string_witness:
  "\<not> success (safeParse ExecuteCommandArgsSchema (JObject [(''command'', JNumber (Finite 1))])) \<and>
   safeParse ExecuteCommandArgsSchema (JObject [(''command'', JString [])]) =
     Inr (JObject [(''command'', JString [])])"
  using execute_command_any_string [of "[(''command'', JNumber (Finite 1))]" "[]"]
  by (simp add: getProp_def isString_def)

section \<open>The filesystem and config contracts\<close>

text \<open>
  C7. The filesystem contracts accept exactly the shapes of the boundary: read file,
  create directory, list directory and get file info an object whose \<^verbatim>\<open>path\<close> is a
  string; read multiple files an object whose \<^verbatim>\<open>paths\<close> is an array of strings; write
  file an object whose \<^verbatim>\<open>path\<close> and \<^verbatim>\<open>content\<close> are strings; move file an object whose
  \<^verbatim>\<open>source\<close> and \<^verbatim>\<open>destination\<close> are strings. An input that lacks one of these fields
  is rejected.
\<close>

theorem filesystem_contracts:
  "(S \<in> {ReadFileArgsSchema, CreateDirectoryArgsSchema, ListDirectoryArgsSchema,
          GetFileInfoArgsSchema} \<longrightarrow>
      success (safeParse S v) = (\<exists>fs. v = JObject fs \<and> isString (getProp fs ''path''))) \<and>
   success (safeParse ReadMultipleFilesArgsSchema v) =
     (\<exists>fs xs. v = JObject fs \<and> getProp fs ''paths'' = JArray xs \<and> (\<forall>x \<in> set xs. isString x)) \<and>
   success (safeParse WriteFileArgsSchema v) =
     (\<exists>fs. v = JObject fs \<and> isString (getProp fs ''path'') \<and> isString (getProp fs ''content'')) \<and>
   success (safeParse MoveFileArgsSchema v) =
     (\<exists>fs. v = JObject fs \<and> isString (getProp fs ''source'') \<and>
        isString (getProp fs ''destination''))"
proof (intro conjI impI)
  assume "S \<in> {ReadFileArgsSchema, CreateDirectoryArgsSchema, ListDirectoryArgsSchema,
          GetFileInfoArgsSchema}"
  then show "success (safeParse S v) = (\<exists>fs. v = JObject fs \<and> isString (getProp fs ''path''))"
    unfolding ReadFileArgsSchema_def CreateDirectoryArgsSchema_def ListDirectoryArgsSchema_def
      GetFileInfoArgsSchema_def
    by (auto simp: success_schema)
next
  show "success (safeParse ReadMultipleFilesArgsSchema v) =
     (\<exists>fs xs. v = JObject fs \<and> getProp fs ''paths'' = JArray xs \<and> (\<forall>x \<in> set xs. isString x))"
    unfolding ReadMultipleFilesArgsSchema_def success_schema
    by (simp add: success_array_string)
next
  show "success (safeParse WriteFileArgsSchema v) =
     (\<exists>fs. v = JObject fs \<and> isString (getProp fs ''path'') \<and> isString (getProp fs ''content''))"
    unfolding WriteFileArgsSchema_def success_schema by simp
next
  show "success (safeParse MoveFileArgsSchema v) =
     (\<exists>fs. v = JObject fs \<and> isString (getProp fs ''source'') \<and>
        isString (getProp fs ''destination''))"
    unfolding MoveFileArgsSchema_def success_schema by simp
qed

theorem filesystem_contracts_witness:
  "success (safeParse ListDirectoryArgsSchema (JObject [(''path'', JString ''/tmp'')])) \<and>
   \<not> success (safeParse ListDirectoryArgsSchema (JObject [])) \<and>
   success (safeParse ReadMultipleFilesArgsSchema
      (JObject [(''paths'', JArray [JString ''a'', JString ''b''])])) \<and>
   \<not> success (safeParse ReadMultipleFilesArgsSchema
      (JObject [(''paths'', JArray [JString ''a'', JNull])])) \<and>
   \<not> success (safeParse ReadMultipleFilesArgsSchema (JObject [(''path'', JString ''a'')])) \<and>
   success (safeParse WriteFileArgsSchema
      (JObject [(''path'', JString ''a''), (''content'', JString [])])) \<and>
   \<not> success (safeParse WriteFileArgsSchema (JObject [(''path'', JString ''a'')])) \<and>
   success (safeParse MoveFileArgsSchema
      (JObject [(''source'', JString ''a''), (''destination'', JString ''b'')])) \<and>
   \<not> success (safeParse MoveFileArgsSchema (JObject [(''source'', JString ''a'')]))"
proof -
  have m: "ListDirectoryArgsSchema \<in> {ReadFileArgsSchema, CreateDirectoryArgsSchema,
      ListDirectoryArgsSchema, GetFileInfoArgsSchema}"
    by simp
  note l = filesystem_contracts [of ListDirectoryArgsSchema, THEN conjunct1, THEN mp, OF m]
  note r = filesystem_contracts [THEN conjunct2, THEN conjunct1]
  note w = filesystem_contracts [THEN conjunct2, THEN conjunct2, THEN conjunct1]
  note mv = filesystem_contracts [THEN conjunct2, THEN conjunct2, THEN conjunct2]
  show ?thesis
    unfolding l r w mv by (simp add: getProp_def isString_def)
qed

text \<open>
  C10. The set config value contract constrains the key only: it validates an input
  exactly when the input is an object whose \<^verbatim>\<open>key\<close> is a string, and a request
  \<^verbatim>\<open>{key, value}\<close> with a string key comes back unchanged whatever the value is.
\<close>

theorem set_config_value_contract:
  "success (safeParse SetConfigValueArgsSchema v) =
     (\<exists>fs. v = JObject fs \<and> isString (getProp fs ''key'')) \<and>
   safeParse SetConfigValueArgsSchema (JObject [(''key'', JString k), (''value'', x)]) =
     Inr (JObject [(''key'', JString k), (''value'', x)])"
proof
  show "success (safeParse SetConfigValueArgsSchema v) =
     (\<exists>fs. v = JObject fs \<and> isString (getProp fs ''key''))"
    unfolding SetConfigValueArgsSchema_def success_schema by simp
  show "safeParse SetConfigValueArgsSchema (JObject [(''key'', JString k), (''value'', x)]) =
     Inr (JObject [(''key'', JString k), (''value'', x)])"
    by (simp add: safeParse_def SetConfigValueArgsSchema_def parse.simps getProp_def
        hasProp_def setPair_def finalObject_def)
qed

theorem set_config_value_contract_witness:
  "success (safeParse SetConfigValueArgsSchema
      (JObject [(''key'', JString ''shell''), (''value'', JArray [JNull, JObject []])])) \<and>
   \<not> success (safeParse SetConfigValueArgsSchema (JObject [(''value'', JNull)])) \<and>
   safeParse SetConfigValueArgsSchema (JObject [(''key'', JString ''shell''), (''value'', JNull)]) =
     Inr (JObject [(''key'', JString ''shell''), (''value'', JNull)])"
  using
    set_config_value_contract
      [of "JObject [(''key'', JString ''shell''), (''value'', JArray [JNull, JObject []])]"
          "''shell''" JNull]
    set_config_value_contract [of "JObject [(''value'', JNull)]" "''shell''" JNull]
  by (simp add: getProp_def isString_def)

section \<open>Unknown keys\<close>

text \<open>
  C8. No contract is strict about unknown keys. For every contract of the module, fields
  whose keys the contract does not declare, put behind or before the fields of an object,
  change nothing: the parse gives the same result, issues or value, as without them. The
  value of a successful parse is an object with declared keys only, so the extra fields
  are stripped. The list sessions and get config contracts declare no key: they accept
  every object and return the empty object.
\<close>

theorem unknown_keys_stripped:
  "(S \<in> set schemas \<and> set (map fst extra) \<inter> set (declared S) = {} \<longrightarrow>
      safeParse S (JObject (fs @ extra)) = safeParse S (JObject fs) \<and>
      safeParse S (JObject (extra @ fs)) = safeParse S (JObject fs)) \<and>
   (S \<in> set schemas \<and> safeParse S v = Inr out \<longrightarrow>
      (\<exists>ofs. out = JObject ofs \<and> set (map fst ofs) \<subseteq> set (declared S))) \<and>
   safeParse ListSessionsArgsSchema (JObject fs) = Inr (JObject []) \<and>
   safeParse GetConfigArgsSchema (JObject fs) = Inr (JObject [])"
proof (intro conjI impI)
  assume a: "S \<in> set schemas \<and> set (map fst extra) \<inter> set (declared S) = {}"
  then obtain shape where S: "S = ZodObject shape"
    using schemas_are_objects by blast
  with a have d: "\<forall>k \<in> set (map fst shape). k \<notin> set (map fst extra)"
    by auto
  show "safeParse S (JObject (fs @ extra)) = safeParse S (JObject fs)"
    unfolding safeParse_def S
    by (rule parse_object_agree, intro ballI map_of_append_extra(1)) (use d in blast)
  show "safeParse S (JObject (extra @ fs)) = safeParse S (JObject fs)"
    unfolding safeParse_def S
    by (rule parse_object_agree, intro ballI map_of_append_extra(2)) (use d in blast)
next
  assume a: "S \<in> set schemas \<and> safeParse S v = Inr out"
  then obtain shape where S: "S = ZodObject shape"
    using schemas_are_objects by blast
  with a parse_object_keys [of shape "[]" v out]
  show "\<exists>ofs. out = JObject ofs \<and> set (map fst ofs) \<subseteq> set (declared S)"
    by (simp add: safeParse_def)
next
  show "safeParse ListSessionsArgsSchema (JObject fs) = Inr (JObject [])"
    by (simp add: safeParse_def ListSessionsArgsSchema_def parse.simps finalObject_def)
  show "safeParse GetConfigArgsSchema (JObject fs) = Inr (JObject [])"
    by (simp add: safeParse_def GetConfigArgsSchema_def parse.simps finalObject_def)
qed

theorem unknown_keys_stripped_witness:
  "ExecuteCommandArgsSchema \<in> set schemas \<and>
   safeParse ExecuteCommandArgsSchema
     (JObject ([(''command'', JString ''ls'')] @ [(''cwd'', JString ''/tmp''), (''pid'', JNull)])) =
     Inr (JObject [(''command'', JString ''ls'')]) \<and>
   safeParse ExecuteCommandArgsSchema
     (JObject ([(''cwd'', JString ''/tmp''), (''pid'', JNull)] @ [(''command'', JString ''ls'')])) =
     Inr (JObject [(''command'', JString ''ls'')]) \<and>
   safeParse ListSessionsArgsSchema (JObject [(''pid'', JNull)]) = Inr (JObject [])"
proof -
  let ?fs = "[(''command'', JString ''ls'')]"
  let ?extra = "[(''cwd'', JString ''/tmp''), (''pid'', JNull)]"
  have m: "ExecuteCommandArgsSchema \<in> set schemas"
    by (simp add: schemas_def)
  have d: "set (map fst ?extra) \<inter> set (declared ExecuteCommandArgsSchema) = {}"
    by (simp add: ExecuteCommandArgsSchema_def)
  have p: "safeParse ExecuteCommandArgsSchema (JObject ?fs) = Inr (JObject ?fs)"
    by (simp add: safeParse_def ExecuteCommandArgsSchema_def parse.simps getProp_def
        hasProp_def setPair_def finalObject_def)
  note u = unknown_keys_stripped [of ExecuteCommandArgsSchema ?extra ?fs]
  from u [THEN conjunct1] m d p
  have "safeParse ExecuteCommandArgsSchema (JObject (?fs @ ?extra)) = Inr (JObject ?fs) \<and>
        safeParse ExecuteCommandArgsSchema (JObject (?extra @ ?fs)) = Inr (JObject ?fs)"
    by simp
  moreover
  from unknown_keys_stripped [of _ _ "[(''pid'', JNull)]", THEN conjunct2, THEN conjunct2,
      THEN conjunct1]
  have "safeParse ListSessionsArgsSchema (JObject [(''pid'', JNull)]) = Inr (JObject [])" .
  ultimately show ?thesis using m by blast
qed

section \<open>Runs of the registry\<close>

lemma run_append:
  "run r (cs @ ds) =
     (case run r cs of (t1, r1) \<Rightarrow> (case run r1 ds of (t2, r2) \<Rightarrow> (t1 @ t2, r2)))"
  by (induction cs arbitrary: r) (simp_all split: prod.splits)

lemma snd_run_append: "snd (run r (cs @ ds)) = snd (run (snd (run r cs)) ds)"
  by (simp add: run_append split: prod.splits)

lemma delivered_append [simp]: "delivered sid (t1 @ t2) = delivered sid t1 @ delivered sid t2"
  by (simp add: delivered_def)

lemma written_append [simp]: "written sid (t1 @ t2) = written sid t1 @ written sid t2"
  by (simp add: written_def)

lemma delivered_single [simp]: "delivered sid [x] = chunkRead sid x"
  by (simp add: delivered_def)

lemma written_single [simp]: "written sid [x] = chunkWritten sid x"
  by (simp add: written_def)

lemma step_create_inv:
  assumes fresh: "\<forall>j \<ge> generation r. sessions r j = None"
    and sync: "\<forall>j. inSync (sessions r j) (written j tr) (delivered j tr)"
    and st: "step r (Create cmd sh timeout now) = (a, r')"
  shows "(\<forall>j \<ge> generation r'. sessions r' j = None) \<and>
         (\<forall>j. inSync (sessions r' j) (written j (tr @ [(Create cmd sh timeout now, a)]))
                 (delivered j (tr @ [(Create cmd sh timeout now, a)])))"
proof (cases "cmd = []")
  case True
  with st have "r' = r" by (simp add: create_def)
  with fresh sync show ?thesis by simp
next
  case False
  with st have r': "r' = r\<lparr>sessions := (sessions r)(generation r \<mapsto>
      \<lparr>command = cmd, shell = sh, createdAt = now, status = running, exitCode = None,
       outputBuffer = [], readCursor = 0,
       timeoutDeadline = map_option (\<lambda>t. now + t) timeout\<rparr>),
      generation := Suc (generation r)\<rparr>"
    by (auto simp: create_def Let_def)
  from fresh have "sessions r (generation r) = None" by simp
  with sync [rule_format, of "generation r"]
  have "written (generation r) tr = [] \<and> delivered (generation r) tr = []"
    by (simp add: inSync_def)
  then have "inSync (sessions r' j) (written j (tr @ [(Create cmd sh timeout now, a)]))
                 (delivered j (tr @ [(Create cmd sh timeout now, a)]))" for j
    using sync [rule_format, of j] unfolding r' by (cases "j = generation r") (simp_all add: inSync_def)
  with fresh show ?thesis
    unfolding r' by simp
qed

lemma step_transition_inv:
  assumes fresh: "\<forall>j \<ge> generation r. sessions r j = None"
    and sync: "\<forall>j. inSync (sessions r j) (written j tr) (delivered j tr)"
    and st: "step r (Transition sid new code) = (a, r')"
  shows "(\<forall>j \<ge> generation r'. sessions r' j = None) \<and>
         (\<forall>j. inSync (sessions r' j) (written j (tr @ [(Transition sid new code, a)]))
                 (delivered j (tr @ [(Transition sid new code, a)])))"
proof (cases "sessions r sid")
  case None
  with st have "r' = r" by (simp add: transition_def)
  with fresh sync show ?thesis by simp
next
  case (Some s)
  show ?thesis
  proof (cases "reachable (status s) new")
    case False
    with st Some have "r' = r" by (simp add: transition_def)
    with fresh sync show ?thesis by simp
  next
    case True
    with st Some have r': "r' = r\<lparr>sessions := (sessions r)(sid \<mapsto> s\<lparr>status := new, exitCode := code\<rparr>)\<rparr>"
      by (auto simp: transition_def)
    have "inSync (sessions r' j) (written j (tr @ [(Transition sid new code, a)]))
                 (delivered j (tr @ [(Transition sid new code, a)]))" for j
      using sync [rule_format, of j] Some unfolding r'
      by (cases "j = sid") (simp_all add: inSync_def)
    moreover from fresh Some have "sid < generation r"
      by (metis not_le_imp_less option.distinct(1))
    ultimately show ?thesis
      using fresh unfolding r' by simp
  qed
qed

lemma step_append_inv:
  assumes fresh: "\<forall>j \<ge> generation r. sessions r j = None"
    and sync: "\<forall>j. inSync (sessions r j) (written j tr) (delivered j tr)"
    and st: "step r (AppendOutput sid chunk) = (a, r')"
  shows "(\<forall>j \<ge> generation r'. sessions r' j = None) \<and>
         (\<forall>j. inSync (sessions r' j) (written j (tr @ [(AppendOutput sid chunk, a)]))
                 (delivered j (tr @ [(AppendOutput sid chunk, a)])))"
proof (cases "sessions r sid")
  case None
  with st have "r' = r" "a = Failure NotFound" by (auto simp: appendOutput_def)
  with fresh sync show ?thesis by simp
next
  case (Some s)
  show ?thesis
  proof (cases "status s = running")
    case False
    with st Some have "r' = r" "a = Appended False" by (auto simp: appendOutput_def)
    with fresh sync show ?thesis by simp
  next
    case True
    with st Some have r': "r' = r\<lparr>sessions := (sessions r)(sid \<mapsto> s\<lparr>outputBuffer := outputBuffer s @ chunk\<rparr>)\<rparr>"
      and a: "a = Appended True"
      by (auto simp: appendOutput_def)
    have "inSync (sessions r' j) (written j (tr @ [(AppendOutput sid chunk, a)]))
                 (delivered j (tr @ [(AppendOutput sid chunk, a)]))" for j
      using sync [rule_format, of j] Some unfolding r' a
      by (cases "j = sid") (simp_all add: inSync_def)
    moreover from fresh Some have "sid < generation r"
      by (metis not_le_imp_less option.distinct(1))
    ultimately show ?thesis
      using fresh unfolding r' by simp
  qed
qed

lemma step_read_inv:
  assumes fresh: "\<forall>j \<ge> generation r. sessions r j = None"
    and sync: "\<forall>j. inSync (sessions r j) (written j tr) (delivered j tr)"
    and st: "step r (Read sid) = (a, r')"
  shows "(\<forall>j \<ge> generation r'. sessions r' j = None) \<and>
         (\<forall>j. inSync (sessions r' j) (written j (tr @ [(Read sid, a)]))
                 (delivered j (tr @ [(Read sid, a)])))"
proof (cases "sessions r sid")
  case None
  with st have "r' = r" "a = Failure NotFound" by (auto simp: read_def)
  with fresh sync show ?thesis by simp
next
  case (Some s)
  with st have r': "r' = r\<lparr>sessions := (sessions r)(sid \<mapsto>
        s\<lparr>readCursor := readCursor s + length (drop (readCursor s) (outputBuffer s))\<rparr>)\<rparr>"
    and a: "a = Chunk (drop (readCursor s) (outputBuffer s)) (status s)"
    by (auto simp: read_def Let_def)
  have "inSync (sessions r' j) (written j (tr @ [(Read sid, a)]))
                 (delivered j (tr @ [(Read sid, a)]))" for j
    using sync [rule_format, of j] Some unfolding r' a
    by (cases "j = sid") (simp_all add: inSync_def)
  moreover from fresh Some have "sid < generation r"
    by (metis not_le_imp_less option.distinct(1))
  ultimately show ?thesis
    using fresh unfolding r' by simp
qed

lemma step_inv:
  assumes "\<forall>j \<ge> generation r. sessions r j = None"
    and "\<forall>j. inSync (sessions r j) (written j tr) (delivered j tr)"
    and "step r c = (a, r')"
  shows "(\<forall>j \<ge> generation r'. sessions r' j = None) \<and>
         (\<forall>j. inSync (sessions r' j) (written j (tr @ [(c, a)])) (delivered j (tr @ [(c, a)])))"
proof (cases c)
  case (Create cmd sh timeout now)
  with assms step_create_inv [of r tr cmd sh timeout now a r'] show ?thesis by simp
next
  case (Transition sid new code)
  with assms step_transition_inv [of r tr sid new code a r'] show ?thesis by simp
next
  case (AppendOutput sid chunk)
  with assms step_append_inv [of r tr sid chunk a r'] show ?thesis by simp
next
  case (Read sid)
  with assms step_read_inv [of r tr sid a r'] show ?thesis by simp
qed

lemma run_inv:
  assumes "\<forall>j \<ge> generation r. sessions r j = None"
    and "\<forall>j. inSync (sessions r j) (written j tr) (delivered j tr)"
    and "run r cs = (tr', r')"
  shows "(\<forall>j \<ge> generation r'. sessions r' j = None) \<and>
         (\<forall>j. inSync (sessions r' j) (written j (tr @ tr')) (delivered j (tr @ tr')))"
  using assms
proof (induction cs arbitrary: r tr tr')
  case Nil
  then show ?case by simp
next
  case (Cons c cs)
  obtain a r1 where s: "step r c = (a, r1)" by (cases "step r c")
  obtain t2 where t: "run r1 cs = (t2, r')" and tr': "tr' = (c, a) # t2"
    using Cons.prems(3) s by (auto split: prod.splits)
  from step_inv [OF Cons.prems(1,2) s]
  have "(\<forall>j \<ge> generation r1. sessions r1 j = None)"
    and "\<forall>j. inSync (sessions r1 j) (written j (tr @ [(c, a)])) (delivered j (tr @ [(c, a)]))"
    by blast+
  from Cons.IH [OF this t] show ?case
    unfolding tr' by simp
qed

lemma run_empty_inv:
  assumes "run emptyRegistry cs = (tr, r)"
  shows "(\<forall>j \<ge> generation r. sessions r j = None) \<and>
         (\<forall>j. inSync (sessions r j) (written j tr) (delivered j tr))"
proof -
  have "\<forall>j \<ge> generation emptyRegistry. sessions emptyRegistry j = None"
    and "\<forall>j. inSync (sessions emptyRegistry j) (written j []) (delivered j [])"
    by (simp_all add: emptyRegistry_def inSync_def written_def delivered_def)
  from run_inv [OF this assms] show ?thesis by simp
qed

lemma terminal_not_reachable: "terminal st \<Longrightarrow> \<not> reachable st new"
  by (cases st; cases new) (simp_all add: terminal_def)

lemma step_terminal:
  assumes fresh: "\<forall>j \<ge> generation r. sessions r j = None"
    and s: "sessions r sid = Some s" and t: "terminal (status s)"
    and st: "step r c = (a, r')"
  shows "(\<forall>j \<ge> generation r'. sessions r' j = None) \<and>
         (\<exists>s'. sessions r' sid = Some s' \<and> status s' = status s \<and> exitCode s' = exitCode s \<and>
               outputBuffer s' = outputBuffer s)"
proof -
  from fresh s have lt: "sid < generation r"
    by (metis not_le_imp_less option.distinct(1))
  from t have nr: "status s \<noteq> running"
    by (auto simp: terminal_def)
  show ?thesis
  proof (cases c)
    case (Create cmd sh timeout now)
    with st fresh s lt show ?thesis
      by (cases "cmd = []") (auto simp: create_def Let_def)
  next
    case (Transition j new code)
    with st fresh s t terminal_not_reachable [OF t] show ?thesis
      by (cases "j = sid"; cases "sessions r j")
         (auto simp: transition_def split: if_splits)
  next
    case (AppendOutput j chunk)
    with st fresh s nr show ?thesis
      by (cases "j = sid"; cases "sessions r j")
         (auto simp: appendOutput_def split: if_splits)
  next
    case (Read j)
    with st fresh s show ?thesis
      by (cases "j = sid"; cases "sessions r j") (auto simp: read_def Let_def)
  qed
qed

lemma run_terminal:
  assumes "\<forall>j \<ge> generation r. sessions r j = None"
    and "sessions r sid = Some s" and "terminal (status s)"
  shows "\<exists>s'. sessions (snd (run r cs)) sid = Some s' \<and> status s' = status s \<and>
              exitCode s' = exitCode s \<and> outputBuffer s' = outputBuffer s"
  using assms
proof (induction cs arbitrary: r s)
  case Nil
  then show ?case by simp
next
  case (Cons c cs)
  obtain a r1 where st: "step r c = (a, r1)" by (cases "step r c")
  from step_terminal [OF Cons.prems st] obtain s1 where
    f1: "\<forall>j \<ge> generation r1. sessions r1 j = None" and s1: "sessions r1 sid = Some s1"
    and e: "status s1 = status s" "exitCode s1 = exitCode s" "outputBuffer s1 = outputBuffer s"
    by blast
  from Cons.prems(3) e have "terminal (status s1)" by simp
  from Cons.IH [OF f1 s1 this] e st show ?case
    by (auto split: prod.splits)
qed

section \<open>The session state machine and the output reader\<close>

text \<open>
  C5. The status of a session only moves forward. A \<^verbatim>\<open>transition\<close> of a running session
  succeeds exactly to \<^verbatim>\<open>completed\<close>, \<^verbatim>\<open>failed\<close>, \<^verbatim>\<open>timedOut\<close> or \<^verbatim>\<open>terminated\<close>, and records
  that status; every \<^verbatim>\<open>transition\<close> out of one of these four fails with
  \<^verbatim>\<open>InvalidTransition\<close>; and whatever calls follow, a session that has reached one of them
  keeps its status, its exit code and its output.
\<close>

theorem status_forward:
  "(sessions r sid = Some s \<and> status s = running \<longrightarrow>
      transition r sid new code =
        (if new \<in> {completed, failed, timedOut, terminated}
         then Inr (r\<lparr>sessions := (sessions r)(sid \<mapsto> s\<lparr>status := new, exitCode := code\<rparr>)\<rparr>)
         else Inl InvalidTransition)) \<and>
   (sessions r sid = Some s \<and> status s \<in> {completed, failed, timedOut, terminated} \<longrightarrow>
      transition r sid new code = Inl InvalidTransition) \<and>
   (sessions (snd (run emptyRegistry cs)) sid = Some s \<and>
    status s \<in> {completed, failed, timedOut, terminated} \<longrightarrow>
      (\<exists>s'. sessions (snd (run emptyRegistry (cs @ ds))) sid = Some s' \<and>
            status s' = status s \<and> exitCode s' = exitCode s \<and>
            outputBuffer s' = outputBuffer s))"
proof (intro conjI impI)
  assume "sessions r sid = Some s \<and> status s = running"
  then show "transition r sid new code =
        (if new \<in> {completed, failed, timedOut, terminated}
         then Inr (r\<lparr>sessions := (sessions r)(sid \<mapsto> s\<lparr>status := new, exitCode := code\<rparr>)\<rparr>)
         else Inl InvalidTransition)"
    by (cases new) (simp_all add: transition_def)
next
  assume "sessions r sid = Some s \<and> status s \<in> {completed, failed, timedOut, terminated}"
  then show "transition r sid new code = Inl InvalidTransition"
    by (auto simp: transition_def)
next
  assume a: "sessions (snd (run emptyRegistry cs)) sid = Some s \<and>
    status s \<in> {completed, failed, timedOut, terminated}"
  obtain tr r1 where r1: "run emptyRegistry cs = (tr, r1)"
    by (cases "run emptyRegistry cs")
  from run_empty_inv [OF r1] have f: "\<forall>j \<ge> generation r1. sessions r1 j = None"
    by blast
  from a r1 have s: "sessions r1 sid = Some s" and t: "terminal (status s)"
    by (auto simp: terminal_def)
  from run_terminal [OF f s t, of ds] r1
  show "\<exists>s'. sessions (snd (run emptyRegistry (cs @ ds))) sid = Some s' \<and>
            status s' = status s \<and> exitCode s' = exitCode s \<and>
            outputBuffer s' = outputBuffer s"
    by (simp add: snd_run_append)
qed

theorem status_forward_witness:
  "transition
     \<lparr>sessions = [0 \<mapsto> \<lparr>command = ''sleep 10'', shell = ''sh'', createdAt = 0, status = running,
         exitCode = None, outputBuffer = [], readCursor = 0, timeoutDeadline = Some 100\<rparr>],
      generation = 1\<rparr> 0 completed (Some 0) =
     Inr \<lparr>sessions = [0 \<mapsto> \<lparr>command = ''sleep 10'', shell = ''sh'', createdAt = 0,
         status = completed, exitCode = Some 0, outputBuffer = [], readCursor = 0,
         timeoutDeadline = Some 100\<rparr>], generation = 1\<rparr> \<and>
   transition
     \<lparr>sessions = [0 \<mapsto> \<lparr>command = ''sleep 10'', shell = ''sh'', createdAt = 0, status = running,
         exitCode = None, outputBuffer = [], readCursor = 0, timeoutDeadline = Some 100\<rparr>],
      generation = 1\<rparr> 0 running None = Inl InvalidTransition \<and>
   transition
     \<lparr>sessions = [0 \<mapsto> \<lparr>command = ''sleep 10'', shell = ''sh'', createdAt = 0, status = timedOut,
         exitCode = None, outputBuffer = [], readCursor = 0, timeoutDeadline = Some 100\<rparr>],
      generation = 1\<rparr> 0 terminated None = Inl InvalidTransition \<and>
   sessions (snd (run emptyRegistry
     [Create ''sleep 10'' ''sh'' (Some 100) 0, Transition 0 timedOut None])) 0 =
     Some \<lparr>command = ''sleep 10'', shell = ''sh'', createdAt = 0, status = timedOut,
         exitCode = None, outputBuffer = [], readCursor = 0, timeoutDeadline = Some 100\<rparr> \<and>
   (\<exists>s'. sessions (snd (run emptyRegistry
       ([Create ''sleep 10'' ''sh'' (Some 100) 0, Transition 0 timedOut None] @
        [Transition 0 completed (Some 0), AppendOutput 0 ''late'', Read 0]))) 0 = Some s' \<and>
      status s' = timedOut \<and> exitCode s' = None \<and> outputBuffer s' = [])"
proof -
  let ?run = "\<lparr>command = ''sleep 10'', shell = ''sh'', createdAt = 0, status = running,
         exitCode = None, outputBuffer = [], readCursor = 0, timeoutDeadline = Some (100::nat)\<rparr>"
  let ?out = "\<lparr>command = ''sleep 10'', shell = ''sh'', createdAt = 0, status = timedOut,
         exitCode = None, outputBuffer = [], readCursor = 0, timeoutDeadline = Some (100::nat)\<rparr>"
  let ?cs = "[Create ''sleep 10'' ''sh'' (Some 100) 0, Transition 0 timedOut None]"
  let ?ds = "[Transition 0 completed (Some 0), AppendOutput 0 ''late'', Read 0]"
  have h: "sessions (snd (run emptyRegistry ?cs)) 0 = Some ?out"
    by (simp add: emptyRegistry_def create_def transition_def)
  note t = status_forward [of "\<lparr>sessions = [0 \<mapsto> ?run], generation = 1\<rparr>" 0 ?run running None
      ?cs ?ds]
  note u = status_forward [of "\<lparr>sessions = [0 \<mapsto> ?out], generation = 1\<rparr>" 0 ?out terminated None
      ?cs ?ds]
  from t have 1: "transition \<lparr>sessions = [0 \<mapsto> ?run], generation = 1\<rparr> 0 running None =
      Inl InvalidTransition"
    by simp
  from u have 2: "transition \<lparr>sessions = [0 \<mapsto> ?out], generation = 1\<rparr> 0 terminated None =
      Inl InvalidTransition"
    by simp
  from u h have 3: "\<exists>s'. sessions (snd (run emptyRegistry (?cs @ ?ds))) 0 = Some s' \<and>
      status s' = timedOut \<and> exitCode s' = None \<and> outputBuffer s' = []"
    by simp
  from status_forward [of "\<lparr>sessions = [0 \<mapsto> ?run], generation = 1\<rparr>" 0 ?run completed
      "Some 0" ?cs ?ds]
  have 0: "transition \<lparr>sessions = [0 \<mapsto> ?run], generation = 1\<rparr> 0 completed (Some 0) =
     Inr \<lparr>sessions = [0 \<mapsto> \<lparr>command = ''sleep 10'', shell = ''sh'', createdAt = 0,
         status = completed, exitCode = Some 0, outputBuffer = [], readCursor = 0,
         timeoutDeadline = Some 100\<rparr>], generation = 1\<rparr>"
    by simp
  from 0 1 2 3 h show ?thesis by blast
qed

text \<open>
  C6. In every interleaving of calls that starts from the empty registry, for every
  session of the registry: its output buffer is exactly what its process wrote to it,
  the chunks its reads returned so far concatenate to the buffer up to the read cursor,
  a read now succeeds, returns the buffer from the cursor to the end with the current
  status and advances the cursor by the length it returned, and with that read the
  chunks concatenate to the whole buffer: no gap and no duplication, wherever the reads
  fall between the writes.
\<close>

theorem read_concatenation:
  "sessions (snd (run emptyRegistry cs)) sid = Some s \<Longrightarrow>
     outputBuffer s = written sid (fst (run emptyRegistry cs)) \<and>
     delivered sid (fst (run emptyRegistry cs)) = take (readCursor s) (outputBuffer s) \<and>
     read (snd (run emptyRegistry cs)) sid =
       Inr ((drop (readCursor s) (outputBuffer s), status s),
            (snd (run emptyRegistry cs))
              \<lparr>sessions := (sessions (snd (run emptyRegistry cs)))
                 (sid \<mapsto> s\<lparr>readCursor :=
                    readCursor s + length (drop (readCursor s) (outputBuffer s))\<rparr>)\<rparr>) \<and>
     delivered sid (fst (run emptyRegistry (cs @ [Read sid]))) = outputBuffer s"
proof -
  assume s: "sessions (snd (run emptyRegistry cs)) sid = Some s"
  obtain tr r where r: "run emptyRegistry cs = (tr, r)"
    by (cases "run emptyRegistry cs")
  from run_empty_inv [OF r] have "inSync (sessions r sid) (written sid tr) (delivered sid tr)"
    by blast
  with s r have w: "outputBuffer s = written sid tr"
    and d: "delivered sid tr = take (readCursor s) (outputBuffer s)"
    by (simp_all add: inSync_def)
  from s r have rd: "read r sid =
       Inr ((drop (readCursor s) (outputBuffer s), status s),
            r\<lparr>sessions := (sessions r)
                 (sid \<mapsto> s\<lparr>readCursor :=
                    readCursor s + length (drop (readCursor s) (outputBuffer s))\<rparr>)\<rparr>)"
    by (simp add: read_def Let_def)
  have "delivered sid (fst (run emptyRegistry (cs @ [Read sid]))) =
          delivered sid tr @ drop (readCursor s) (outputBuffer s)"
    using r rd by (simp add: run_append)
  with d have "delivered sid (fst (run emptyRegistry (cs @ [Read sid]))) = outputBuffer s"
    by simp
  with w d rd r show ?thesis by simp
qed

theorem read_concatenation_witness:
  "sessions (snd (run emptyRegistry
     [Create ''echo hello'' ''sh'' (Some 5000) 0, AppendOutput 0 ''hel'', Read 0,
      AppendOutput 0 ''lo'', Transition 0 completed (Some 0), AppendOutput 0 ''!''])) 0 =
     Some \<lparr>command = ''echo hello'', shell = ''sh'', createdAt = 0, status = completed,
         exitCode = Some 0, outputBuffer = ''hello'', readCursor = 3,
         timeoutDeadline = Some 5000\<rparr> \<and>
   delivered 0 (fst (run emptyRegistry
     [Create ''echo hello'' ''sh'' (Some 5000) 0, AppendOutput 0 ''hel'', Read 0,
      AppendOutput 0 ''lo'', Transition 0 completed (Some 0), AppendOutput 0 ''!''])) = ''hel'' \<and>
   delivered 0 (fst (run emptyRegistry
     ([Create ''echo hello'' ''sh'' (Some 5000) 0, AppendOutput 0 ''hel'', Read 0,
      AppendOutput 0 ''lo'', Transition 0 completed (Some 0), AppendOutput 0 ''!''] @
      [Read 0]))) = ''hello''"
proof -
  let ?cs = "[Create ''echo hello'' ''sh'' (Some 5000) 0, AppendOutput 0 ''hel'', Read 0,
      AppendOutput 0 ''lo'', Transition 0 completed (Some 0), AppendOutput 0 ''!'']"
  let ?s = "\<lparr>command = ''echo hello'', shell = ''sh'', createdAt = 0, status = completed,
         exitCode = Some 0, outputBuffer = ''hello'', readCursor = 3,
         timeoutDeadline = Some (5000::nat)\<rparr>"
  have h: "sessions (snd (run emptyRegistry ?cs)) 0 = Some ?s"
    by (simp add: emptyRegistry_def create_def transition_def appendOutput_def read_def Let_def)
  from read_concatenation [OF h] h show ?thesis
    by simp
qed

end
